theory Spec2Isabelle
  imports Main "HOL-Library.Word"
begin

section \<open>The disassemble command of ipsw (cmd/ipsw/cmd/disass.go)\<close>

text \<open>
  A shallow embedding of \<^verbatim>\<open>disass.go\<close>: the function-boundary lookup
  \<^verbatim>\<open>isFunctionStart\<close>, the symbol demangling wrapper \<^verbatim>\<open>doDemangle\<close> and the
  body of the command \<^verbatim>\<open>disCmd\<close> with its annotation loop. Go's \<^verbatim>\<open>uint64\<close> and
  \<^verbatim>\<open>int64\<close> are 64-bit words (addition and subtraction wrap), \<^verbatim>\<open>int32\<close> is a 32-bit
  word that is sign-extended where the source converts it. A run-time panic and every
  error return of the source are values of the type \<open>error\<close>.
\<close>

subsection \<open>Data\<close>

type_synonym u64 = "64 word"
type_synonym i64 = "64 word"
type_synonym i32 = "32 word"
type_synonym byte = "8 word"

datatype error =
    IndexOutOfRange          \<comment> \<open>run-time panic: index out of range\<close>
  | MakeSlice                \<comment> \<open>\<^verbatim>\<open>make\<close> fails: makeslice: len out of range, or out of memory\<close>
  | ErrInvalidMachO          \<comment> \<open>\<^verbatim>\<open>macho.Open\<close> failed\<close>
  | ErrSymbolNotFound        \<comment> \<open>\<^verbatim>\<open>m.FindSymbolAddress\<close> failed\<close>
  | ErrNoVaddr               \<comment> \<open>"you must supply a vaddr to disassemble at"\<close>
  | ErrRead                  \<comment> \<open>\<^verbatim>\<open>sec.ReadAt\<close> failed\<close>
  | ErrNotInText             \<comment> \<open>"supplied vaddr not found in any __text section"\<close>
  | ErrEngine                \<comment> \<open>"failed to create capstone engine"\<close>
  | ErrDisasm                \<comment> \<open>"failed to disassemble data"\<close>
  | AddressNotMapped         \<comment> \<open>the Address Translator's failure\<close>


text \<open>
  The operand and instruction records of the decoder (gapstone). Every operand carries
  all of \<open>Reg\<close>, \<open>Imm\<close> and \<open>Mem\<close>; the decoder fills the one that applies and leaves
  the others zero. \<open>Operands\<close> stands for \<^verbatim>\<open>insn.Arm64.Operands\<close>; a nil slice is the
  empty list (its length is 0, which is all the source asks of it).
\<close>

record Arm64MemoryOperand =
  Base :: nat
  Index :: nat
  Disp :: i32

record Arm64Operand =
  Reg :: nat
  Imm :: i64
  Mem :: Arm64MemoryOperand

record Instruction =
  Address :: u64
  Mnemonic :: string
  OpStr :: string
  Operands :: "Arm64Operand list"

text \<open>
  A section of the opened file; \<open>ReadAt sec n off\<close> is \<^verbatim>\<open>sec.ReadAt(data, off)\<close> for a
  buffer of \<open>n\<close> bytes: the bytes read, or \<open>None\<close> for an error.
\<close>

record Section =
  Name :: string
  Addr :: u64
  Size :: u64
  ReadAt :: "nat \<Rightarrow> u64 \<Rightarrow> byte list option"

text \<open>
  The opened Mach-O file \<^verbatim>\<open>m\<close>, as far as the command uses it. The methods belong to
  the go-macho library; each is a field here, \<open>None\<close> standing for a non-nil \<^verbatim>\<open>err\<close>
  (for \<open>FunctionStarts\<close>: for a nil slice).
\<close>

record MachO =
  FunctionStarts :: "u64 list option"
  Sections :: "Section list"
  FindSymbolAddress :: "string \<Rightarrow> u64 option"
  FindAddressSymbol :: "u64 \<Rightarrow> string option"
  GetCString :: "u64 \<Rightarrow> string option"

text \<open>
  One invocation: the flags (\<^verbatim>\<open>Verbose\<close>, \<^verbatim>\<open>--symbol\<close>, \<^verbatim>\<open>--demangle\<close>, \<^verbatim>\<open>--vaddr\<close>,
  \<^verbatim>\<open>--instrs\<close>) and the collaborators outside this file: \<open>Open\<close> is the result of
  \<^verbatim>\<open>macho.Open(args[0])\<close>, \<open>Filter\<close> is \<^verbatim>\<open>demangle.Filter\<close>, \<open>EngineNew\<close> tells whether
  \<^verbatim>\<open>gapstone.New\<close> succeeds and \<open>Disasm\<close> is \<^verbatim>\<open>engine.Disasm(data, startAddr, 0)\<close>.
  \<open>Alloc n\<close> tells whether the run-time system has the memory for a buffer of \<open>n\<close>
  bytes.
\<close>

record Env =
  Verbose :: bool
  symbolName :: string
  demangleFlag :: bool
  vaddr :: u64
  instrs :: u64
  Open :: "MachO option"
  Filter :: "string \<Rightarrow> string"
  EngineNew :: bool
  Disasm :: "byte list \<Rightarrow> u64 \<Rightarrow> Instruction list option"
  Alloc :: "u64 \<Rightarrow> bool"

text \<open>
  What the command prints: \<open>FuncLabel sym\<close> is \<^verbatim>\<open>fmt.Printf("\n%s:\n", sym)\<close> and
  \<open>InsnLine a mn ops\<close> is \<^verbatim>\<open>fmt.Printf("0x%x:\t%s\t\t%s\n", a, mn, ops)\<close>.
\<close>

datatype printed = FuncLabel string | InsnLine u64 string string

subsection \<open>Indexing and \<^verbatim>\<open>sort.Search\<close>\<close>

text \<open>Go's \<^verbatim>\<open>xs[i]\<close>: a panic when \<open>i\<close> is out of range.\<close>

definition index_at :: "'a list \<Rightarrow> nat \<Rightarrow> error + 'a" where
  "index_at xs i = (if i < length xs then Inr (xs ! i) else Inl IndexOutOfRange)"

text \<open>
  \<^verbatim>\<open>sort.Search(n, f)\<close> of Go's standard library:
  \<^verbatim>\<open>
  i, j := 0, n
  for i < j {
      h := int(uint(i+j) >> 1)
      if !f(h) { i = h + 1 } else { j = h }
  }
  return i
  \<close>
  The predicate may panic (it indexes a slice), so it returns \<open>error + bool\<close>.
\<close>

function search_loop :: "(nat \<Rightarrow> error + bool) \<Rightarrow> nat \<Rightarrow> nat \<Rightarrow> error + nat" where
  "search_loop f i j =
     (if i < j then
        (let h = (i + j) div 2 in
         case f h of
           Inl e \<Rightarrow> Inl e
         | Inr b \<Rightarrow> if \<not> b then search_loop f (h + 1) j else search_loop f i h)
      else Inr i)"
  by pat_completeness auto
termination
  by (relation "measure (\<lambda>(f, i, j). j - i)") auto

declare search_loop.simps [simp del]

definition Search :: "nat \<Rightarrow> (nat \<Rightarrow> error + bool) \<Rightarrow> error + nat" where
  "Search n f = search_loop f 0 n"

subsection \<open>\<^verbatim>\<open>isFunctionStart\<close> (disass.go, lines 84 to 90)\<close>

definition isFunctionStart :: "u64 list \<Rightarrow> u64 \<Rightarrow> error + u64" where
  "isFunctionStart starts addr =
     (case Search (length starts)
             (\<lambda>i. case index_at starts i of Inl e \<Rightarrow> Inl e | Inr s \<Rightarrow> Inr (s \<ge> addr)) of
        Inl e \<Rightarrow> Inl e
      | Inr i \<Rightarrow>
          if i < length starts \<and> starts ! i = addr then
            (case index_at starts (i + 1) of
               Inl e \<Rightarrow> Inl e
             | Inr nxt \<Rightarrow> Inr (nxt - addr))
          else Inr 0)"

subsection \<open>\<^verbatim>\<open>doDemangle\<close> (disass.go, lines 62 to 82)\<close>

text \<open>
  \<^verbatim>\<open>name[0]\<close> and \<^verbatim>\<open>name[skip]\<close> panic on a name that is too short; \<open>filt\<close> is
  \<^verbatim>\<open>demangle.Filter\<close>.
\<close>

definition doDemangle :: "(string \<Rightarrow> string) \<Rightarrow> string \<Rightarrow> error + string" where
  "doDemangle filt name =
     (case index_at name 0 of
        Inl e \<Rightarrow> Inl e
      | Inr c0 \<Rightarrow>
          (let skip = (if c0 = CHR ''.'' \<or> c0 = CHR ''$'' then 1 else 0) in
           case index_at name skip of
             Inl e \<Rightarrow> Inl e
           | Inr c \<Rightarrow>
               (let skip' = (if c = CHR ''_'' then skip + 1 else skip);
                    result = filt (drop skip' name)
                in if result = drop skip' name then Inr name
                   else Inr ((if c0 = CHR ''.'' then ''.'' else []) @ result))))"

text \<open>\<^verbatim>\<open>if demangleFlag { sym = doDemangle(sym) }\<close>: the name as it is printed.\<close>

definition symText :: "Env \<Rightarrow> string \<Rightarrow> error + string" where
  "symText env symb = (if demangleFlag env then doDemangle (Filter env) symb else Inr symb)"

subsection \<open>The annotation loop (disass.go, lines 181 to 235)\<close>

text \<open>\<^verbatim>\<open>strings.HasPrefix(s, p)\<close>.\<close>

definition HasPrefix :: "string \<Rightarrow> string \<Rightarrow> bool" where
  "HasPrefix s p = (take (length p) s = p)"

text \<open>Lines 183 to 191: the label printed at the start of a new function.\<close>

definition functionHeader :: "Env \<Rightarrow> MachO \<Rightarrow> Instruction \<Rightarrow> error + printed list" where
  "functionHeader env m insn =
     (case FunctionStarts m of
        None \<Rightarrow> Inr []
      | Some funcStarts \<Rightarrow>
          (case isFunctionStart funcStarts (Address insn) of
             Inl e \<Rightarrow> Inl e
           | Inr sz \<Rightarrow>
               if sz \<noteq> 0 then
                 (case FindAddressSymbol m (Address insn) of
                    None \<Rightarrow> Inr []
                  | Some symb \<Rightarrow>
                      (case symText env symb of
                         Inl e \<Rightarrow> Inl e
                       | Inr t \<Rightarrow> Inr [FuncLabel t]))
               else Inr []))"

text \<open>
  Lines 197 to 203: the address the pair refers to. \<open>prev\<close> is \<^verbatim>\<open>insns[i-1]\<close>, whose
  operand list has more than one entry, as has that of \<open>insn\<close> (lines 195 and 196).
  \<^verbatim>\<open>int64(Disp)\<close> sign-extends.
\<close>

definition adrpAddress :: "Instruction \<Rightarrow> Instruction \<Rightarrow> error + u64" where
  "adrpAddress prev insn =
     (let adrpRegister = Reg (Operands prev ! 0);
          adrpImm = Imm (Operands prev ! 1)
      in if Mnemonic insn = ''ldr'' \<and> adrpRegister = Base (Mem (Operands insn ! 1)) then
           Inr (adrpImm + scast (Disp (Mem (Operands insn ! 1))))
         else if Mnemonic insn = ''add'' \<and> adrpRegister = Reg (Operands insn ! 0) then
           (case index_at (Operands insn) 2 of
              Inl e \<Rightarrow> Inl e
            | Inr op2 \<Rightarrow> Inr (adrpImm + Imm op2))
         else Inr adrpImm)"

text \<open>Lines 205 to 216: mark the instruction up with a label comment.\<close>

definition markup :: "Env \<Rightarrow> MachO \<Rightarrow> Instruction \<Rightarrow> u64 \<Rightarrow> error + Instruction" where
  "markup env m insn a =
     (case FindAddressSymbol m a of
        Some symb \<Rightarrow>
          (case symText env symb of
             Inl e \<Rightarrow> Inl e
           | Inr t \<Rightarrow> Inr (insn\<lparr>OpStr := OpStr insn @ '' // '' @ t\<rparr>))
      | None \<Rightarrow>
          (case GetCString m a of
             Some cstr \<Rightarrow> Inr (insn\<lparr>OpStr := OpStr insn @ '' // '' @ cstr\<rparr>)
           | None \<Rightarrow> Inr insn))"

text \<open>
  Lines 194 to 219. \<^verbatim>\<open>insns[i-1]\<close> is read only when the conjuncts before it hold
  (\<^verbatim>\<open>&&\<close> short-circuits); at \<open>i = 0\<close> that read is \<^verbatim>\<open>insns[-1]\<close>, a panic.
\<close>

definition adrpBlock :: "Env \<Rightarrow> MachO \<Rightarrow> Instruction list \<Rightarrow> nat \<Rightarrow> Instruction \<Rightarrow> error + Instruction" where
  "adrpBlock env m insns i insn =
     (if Verbose env \<and> (Mnemonic insn = ''ldr'' \<or> Mnemonic insn = ''add'') then
        (case (if i = 0 then Inl IndexOutOfRange else index_at insns (i - 1)) of
           Inl e \<Rightarrow> Inl e
         | Inr prev \<Rightarrow>
             if Mnemonic prev = ''adrp'' then
               if length (Operands insn) > 1 then
                 if length (Operands prev) > 1 then
                   (case adrpAddress prev insn of
                      Inl e \<Rightarrow> Inl e
                    | Inr a \<Rightarrow> markup env m insn a)
                 else Inr insn
               else Inr insn
             else Inr insn)
      else Inr insn)"

text \<open>Lines 222 to 232: a branch to a known symbol shows the symbol.\<close>

definition branchBlock :: "Env \<Rightarrow> MachO \<Rightarrow> Instruction \<Rightarrow> error + Instruction" where
  "branchBlock env m insn =
     (if HasPrefix (Mnemonic insn) ''b'' \<and> HasPrefix (OpStr insn) ''#0x'' then
        if length (Operands insn) > 0 then
          (case FindAddressSymbol m (Imm (Operands insn ! 0)) of
             Some symb \<Rightarrow>
               (case symText env symb of
                  Inl e \<Rightarrow> Inl e
                | Inr t \<Rightarrow> Inr (insn\<lparr>OpStr := t\<rparr>))
           | None \<Rightarrow> Inr insn)
        else Inr insn
      else Inr insn)"

text \<open>The two blocks in sequence: the instruction as line 234 prints it.\<close>

definition annotate :: "Env \<Rightarrow> MachO \<Rightarrow> Instruction list \<Rightarrow> nat \<Rightarrow> error + Instruction" where
  "annotate env m insns i =
     (case adrpBlock env m insns i (insns ! i) of
        Inl e \<Rightarrow> Inl e
      | Inr insn \<Rightarrow> branchBlock env m insn)"

text \<open>
  One iteration of the loop, for an index \<open>i\<close> of the range: what it prints, and the
  panic that ends it, if any. A label that was printed stays printed.
\<close>

definition loopBody :: "Env \<Rightarrow> MachO \<Rightarrow> Instruction list \<Rightarrow> nat \<Rightarrow> printed list \<times> error option" where
  "loopBody env m insns i =
     (case functionHeader env m (insns ! i) of
        Inl e \<Rightarrow> ([], Some e)
      | Inr label \<Rightarrow>
          (case annotate env m insns i of
             Inl e \<Rightarrow> (label, Some e)
           | Inr insn \<Rightarrow>
               (label @ [InsnLine (Address insn) (Mnemonic insn) (OpStr insn)], None)))"

text \<open>\<^verbatim>\<open>for i, insn := range insns\<close>, over the indices still to visit.\<close>

fun scan :: "Env \<Rightarrow> MachO \<Rightarrow> Instruction list \<Rightarrow> nat list \<Rightarrow> printed list \<times> error option" where
  "scan env m insns [] = ([], None)"
| "scan env m insns (i # rest) =
     (case loopBody env m insns i of
        (out, Some e) \<Rightarrow> (out, Some e)
      | (out, None) \<Rightarrow>
          (case scan env m insns rest of (out', r) \<Rightarrow> (out @ out', r)))"

subsection \<open>The command (disass.go, lines 97 to 238)\<close>

text \<open>
  The command runs with at least one argument (\<^verbatim>\<open>cobra.MinimumNArgs(1)\<close>), so
  \<^verbatim>\<open>args[0]\<close> is there.
\<close>






section \<open>The Address Translator of the specification\<close>

text \<open>
  Modelled from the spec: the Mapping of the data model (section 3). The code of the
  Address Translator is not among the sources; only the documentation of the commands
  \<^verbatim>\<open>dyld a2o\<close> and \<^verbatim>\<open>dyld o2a\<close> is. A mapping links the virtual-address range
  \<open>addressBase ..< addressBase + mappingSize\<close> to the file-offset range
  \<open>fileOffsetBase ..< fileOffsetBase + mappingSize\<close>; the slide-info range, the
  protection flags and the segment name play no part in the translation and are left out.
\<close>

record Mapping =
  addressBase :: u64
  fileOffsetBase :: u64
  mappingSize :: u64

text \<open>
  Modelled from the spec: "the Mapping whose virtual-address range contains \<open>va\<close>"
  (section 4.2), written without an addition that could wrap.
\<close>

definition vaContains :: "Mapping \<Rightarrow> u64 \<Rightarrow> bool" where
  "vaContains mp va = (addressBase mp \<le> va \<and> va - addressBase mp < mappingSize mp)"

text \<open>
  Modelled from the spec: the same for the file-offset range, which \<open>offsetToAddress\<close>
  searches (section 4.2).
\<close>

definition foContains :: "Mapping \<Rightarrow> u64 \<Rightarrow> bool" where
  "foContains mp fo = (fileOffsetBase mp \<le> fo \<and> fo - fileOffsetBase mp < mappingSize mp)"

text \<open>
  Modelled from the spec: \<open>addressToOffset(va)\<close> of section 4.2: find the mapping whose
  virtual-address range contains \<open>va\<close>, fail with \<open>AddressNotMapped\<close> if none does, else
  \<open>fileOffset = mapping.fileOffsetBase + (va - mapping.addressBase)\<close>. The specification
  asks for a binary search over the ascending table; the mapping it finds is the one a
  search from the front finds.
\<close>

definition addressToOffset :: "Mapping list \<Rightarrow> u64 \<Rightarrow> error + u64" where
  "addressToOffset mps va =
     (case find (\<lambda>mp. vaContains mp va) mps of
        None \<Rightarrow> Inl AddressNotMapped
      | Some mp \<Rightarrow> Inr (fileOffsetBase mp + (va - addressBase mp)))"

text \<open>
  Modelled from the spec: \<open>offsetToAddress(fo)\<close> of section 4.2, "the exact inverse,
  searching the file-offset-ordered view": the table sorted by file offset.
\<close>

definition offsetToAddress :: "Mapping list \<Rightarrow> u64 \<Rightarrow> error + u64" where
  "offsetToAddress mps fo =
     (case find (\<lambda>mp. foContains mp fo) (sort_key fileOffsetBase mps) of
        None \<Rightarrow> Inl AddressNotMapped
      | Some mp \<Rightarrow> Inr (addressBase mp + (fo - fileOffsetBase mp)))"

text \<open>
  Modelled from the spec: the invariant of section 3 that mappings are "ordered ascending
  by address" and "non-overlapping in virtual-address space": a mapping ends where a later
  one begins, or before.
\<close>

definition vaBefore :: "Mapping \<Rightarrow> Mapping \<Rightarrow> bool" where
  "vaBefore mp mp' = (unat (addressBase mp) + unat (mappingSize mp) \<le> unat (addressBase mp'))"

text \<open>
  Modelled from the spec: the invariant of section 3 that mappings are "non-overlapping in
  file-offset space": of two mappings, one ends where the other begins, or before.
\<close>

definition foApart :: "Mapping \<Rightarrow> Mapping \<Rightarrow> bool" where
  "foApart mp mp' =
     (unat (fileOffsetBase mp) + unat (mappingSize mp) \<le> unat (fileOffsetBase mp') \<or>
      unat (fileOffsetBase mp') + unat (mappingSize mp') \<le> unat (fileOffsetBase mp))"

text \<open>
  Modelled from the spec: "all offset/size pairs must lie within file bounds" (section 3),
  as far as the translation needs it: neither range of a mapping wraps around the 64-bit
  space.
\<close>

definition inBounds :: "Mapping \<Rightarrow> bool" where
  "inBounds mp =
     (unat (addressBase mp) + unat (mappingSize mp) \<le> 2 ^ 64 \<and>
      unat (fileOffsetBase mp) + unat (mappingSize mp) \<le> 2 ^ 64)"

text \<open>Modelled from the spec: the three invariants together, for a table of mappings.\<close>

definition mappingsOK :: "Mapping list \<Rightarrow> bool" where
  "mappingsOK mps = (list_all inBounds mps \<and> sorted_wrt vaBefore mps \<and> sorted_wrt foApart mps)"

section \<open>Sample inputs\<close>

text \<open>
  Operands as the decoder fills them: a register, an immediate, a memory reference with a
  base register and a displacement. Registers are numbered as in their names.
\<close>

definition reg_op :: "nat \<Rightarrow> Arm64Operand" where
  "reg_op r = \<lparr>Reg = r, Imm = 0, Mem = \<lparr>Base = 0, Index = 0, Disp = 0\<rparr>\<rparr>"

definition imm_op :: "i64 \<Rightarrow> Arm64Operand" where
  "imm_op v = \<lparr>Reg = 0, Imm = v, Mem = \<lparr>Base = 0, Index = 0, Disp = 0\<rparr>\<rparr>"

definition mem_op :: "nat \<Rightarrow> i32 \<Rightarrow> Arm64Operand" where
  "mem_op b d = \<lparr>Reg = 0, Imm = 0, Mem = \<lparr>Base = b, Index = 0, Disp = d\<rparr>\<rparr>"

text \<open>\<^verbatim>\<open>adrp x8, #0x100008000\<close> and the instructions that may follow it.\<close>

definition sample_adrp :: Instruction where
  "sample_adrp = \<lparr>Address = 0x100004000, Mnemonic = ''adrp'', OpStr = ''x8, #0x100008000'',
     Operands = [reg_op 8, imm_op 0x100008000]\<rparr>"

definition sample_ldr :: Instruction where
  "sample_ldr = \<lparr>Address = 0x100004004, Mnemonic = ''ldr'', OpStr = ''x8, [x8, #0xcb8]'',
     Operands = [reg_op 8, mem_op 8 0xcb8]\<rparr>"

definition sample_add :: Instruction where
  "sample_add = \<lparr>Address = 0x100004004, Mnemonic = ''add'', OpStr = ''x0, x8, #0xcb8'',
     Operands = [reg_op 0, reg_op 8, imm_op 0xcb8]\<rparr>"

definition sample_add_other :: Instruction where
  "sample_add_other = \<lparr>Address = 0x100004004, Mnemonic = ''add'', OpStr = ''x8, x9, #0xcb8'',
     Operands = [reg_op 8, reg_op 9, imm_op 0xcb8]\<rparr>"

definition sample_add_same :: Instruction where
  "sample_add_same = \<lparr>Address = 0x100004004, Mnemonic = ''add'', OpStr = ''x8, x8, #0xcb8'',
     Operands = [reg_op 8, reg_op 8, imm_op 0xcb8]\<rparr>"

definition sample_bl :: Instruction where
  "sample_bl = \<lparr>Address = 0x100004008, Mnemonic = ''bl'', OpStr = ''#0x100008cb8'',
     Operands = [imm_op 0x100008cb8]\<rparr>"

text \<open>
  A file with one \<^verbatim>\<open>__text\<close> section and one symbol, at \<open>0x100008cb8\<close>, and an
  invocation on it, on a system that has memory for buffers of up to 4 GiB.
\<close>

definition sample_macho :: MachO where
  "sample_macho = \<lparr>FunctionStarts = None,
     Sections = [\<lparr>Name = ''__text'', Addr = 0x100004000, Size = 0x1000,
                  ReadAt = (\<lambda>n off. Some (replicate n 0))\<rparr>],
     FindSymbolAddress = (\<lambda>n. None),
     FindAddressSymbol = (\<lambda>a. if a = 0x100008cb8 then Some ''_objc_msgSend'' else None),
     GetCString = (\<lambda>a. None)\<rparr>"

definition sample_env :: Env where
  "sample_env = \<lparr>Verbose = True, symbolName = [], demangleFlag = False, vaddr = 0x100004000,
     instrs = 2, Open = Some sample_macho, Filter = (\<lambda>s. s), EngineNew = True,
     Disasm = (\<lambda>d a. Some [sample_adrp, sample_ldr]), Alloc = (\<lambda>n. n \<le> 0x100000000)\<rparr>"

text \<open>
  The same with the demangle flag set. \<open>sample_filter\<close> stands for \<^verbatim>\<open>demangle.Filter\<close>
  on the names of the samples: it demangles \<^verbatim>\<open>_Z3foov\<close> as \<^verbatim>\<open>c++filt\<close> does and leaves
  every other name as it is. \<open>cxx_macho\<close> has the symbol \<^verbatim>\<open>__Z3foov\<close> at \<open>0x100008cb8\<close>,
  and \<open>noname_macho\<close> has a symbol with the empty name there.
\<close>

definition sample_filter :: "string \<Rightarrow> string" where
  "sample_filter s = (if s = ''_Z3foov'' then ''foo()'' else s)"

definition demangle_env :: Env where
  "demangle_env = sample_env\<lparr>demangleFlag := True, Filter := sample_filter\<rparr>"

definition cxx_macho :: MachO where
  "cxx_macho = sample_macho\<lparr>FindAddressSymbol :=
     (\<lambda>a. if a = 0x100008cb8 then Some ''__Z3foov'' else None)\<rparr>"

definition noname_macho :: MachO where
  "noname_macho = sample_macho\<lparr>FindAddressSymbol :=
     (\<lambda>a. if a = 0x100008cb8 then Some [] else None)\<rparr>"

text \<open>
  The function starts of the specification's example, with a symbol for the function at
  100 and none for the one at 140, and an instruction at each of the two.
\<close>

definition starts_macho :: MachO where
  "starts_macho = \<lparr>FunctionStarts = Some [100, 140, 200],
     Sections = [\<lparr>Name = ''__text'', Addr = 100, Size = 200,
                  ReadAt = (\<lambda>n off. Some (replicate n 0))\<rparr>],
     FindSymbolAddress = (\<lambda>n. None),
     FindAddressSymbol = (\<lambda>a. if a = 100 then Some ''_main'' else None),
     GetCString = (\<lambda>a. None)\<rparr>"

text \<open>
  Function starts with a repeated last entry, and symbols at 100 and at that entry; and
  the function starts of the example with a mangled symbol at 100.
\<close>

definition repeat_macho :: MachO where
  "repeat_macho = starts_macho\<lparr>FunctionStarts := Some [100, 140, 200, 200],
     FindAddressSymbol :=
       (\<lambda>a. if a = 100 then Some ''_main'' else if a = 200 then Some ''_last'' else None)\<rparr>"

definition cxx_starts_macho :: MachO where
  "cxx_starts_macho = starts_macho\<lparr>FindAddressSymbol :=
     (\<lambda>a. if a = 100 then Some ''__Z3foov'' else None)\<rparr>"

definition ret_at :: "u64 \<Rightarrow> Instruction" where
  "ret_at a = \<lparr>Address = a, Mnemonic = ''ret'', OpStr = [], Operands = []\<rparr>"

text \<open>The two mappings of the specification's scenario (section 8).\<close>

definition sample_mappings :: "Mapping list" where
  "sample_mappings =
     [\<lparr>addressBase = 0x180000000, fileOffsetBase = 0, mappingSize = 0x4C6C0000\<rparr>,
      \<lparr>addressBase = 0x1D7B18000, fileOffsetBase = 0x53B18000, mappingSize = 0x518C000\<rparr>]"

section \<open>The function-boundary lookup\<close>

text \<open>
  C3. On the function starts \<open>[100, 140, 200]\<close> the lookup at address 140 returns the size
  60, the distance to the next entry, and at address 150, which is no entry, it returns 0.
\<close>

theorem isFunctionStart_example:
  "isFunctionStart [100, 140, 200] 140 = Inr 60 \<and> isFunctionStart [100, 140, 200] 150 = Inr 0"
  by code_simp

text \<open>
  The binary search on a sorted array: it probes only indices below the length, so it
  never panics, and it stops at the first index whose entry is not below the address.
\<close>

lemma search_loop_inv:
  fixes starts :: "u64 list"
  assumes "sorted starts"
  shows "\<forall>h<length starts. f h = Inr (addr \<le> starts ! h) \<Longrightarrow> i \<le> j \<Longrightarrow> j \<le> length starts \<Longrightarrow>
     (\<forall>k<i. starts ! k < addr) \<Longrightarrow>
     (\<forall>k. j \<le> k \<and> k < length starts \<longrightarrow> addr \<le> starts ! k) \<Longrightarrow>
     \<exists>r. search_loop f i j = Inr r \<and> r \<le> length starts \<and>
         (\<forall>k<r. starts ! k < addr) \<and>
         (\<forall>k. r \<le> k \<and> k < length starts \<longrightarrow> addr \<le> starts ! k)"
proof (induction f i j rule: search_loop.induct)
  case (1 f i j)
  show ?case
  proof (cases "i < j")
    case False
    with "1.prems" have "i = j" by simp
    with False "1.prems" show ?thesis
      by (subst search_loop.simps) auto
  next
    case True
    define h where "h = (i + j) div 2"
    have hb: "i \<le> h" "h < j" using True by (auto simp: h_def)
    then have hl: "h < length starts" using "1.prems" by simp
    have fh: "f h = Inr (addr \<le> starts ! h)" using "1.prems" hl by simp
    show ?thesis
    proof (cases "addr \<le> starts ! h")
      case False
      have lo: "\<forall>k<h + 1. starts ! k < addr"
      proof (intro allI impI)
        fix k assume "k < h + 1"
        then have "k \<le> h" by simp
        then have "starts ! k \<le> starts ! h"
          using assms(1) hl by (simp add: sorted_iff_nth_mono)
        with False show "starts ! k < addr" by simp
      qed
      have "\<exists>r. search_loop f (h + 1) j = Inr r \<and> r \<le> length starts \<and>
         (\<forall>k<r. starts ! k < addr) \<and>
         (\<forall>k. r \<le> k \<and> k < length starts \<longrightarrow> addr \<le> starts ! k)"
        using "1.IH"(1) [OF True h_def fh] False hb "1.prems" lo by simp
      moreover have "search_loop f i j = search_loop f (h + 1) j"
        using True fh False by (subst search_loop.simps) (simp add: h_def Let_def)
      ultimately show ?thesis by simp
    next
      case ge: True
      have hi: "\<forall>k. h \<le> k \<and> k < length starts \<longrightarrow> addr \<le> starts ! k"
      proof (intro allI impI)
        fix k assume "h \<le> k \<and> k < length starts"
        then have "starts ! h \<le> starts ! k"
          using assms(1) by (simp add: sorted_iff_nth_mono)
        with ge show "addr \<le> starts ! k" by simp
      qed
      have "\<exists>r. search_loop f i h = Inr r \<and> r \<le> length starts \<and>
         (\<forall>k<r. starts ! k < addr) \<and>
         (\<forall>k. r \<le> k \<and> k < length starts \<longrightarrow> addr \<le> starts ! k)"
        using "1.IH"(2) [OF True h_def fh] ge hb "1.prems" hi by simp
      moreover have "search_loop f i j = search_loop f i h"
        using True fh ge by (subst search_loop.simps) (simp add: h_def Let_def)
      ultimately show ?thesis by simp
    qed
  qed
qed

lemma Search_sorted:
  fixes starts :: "u64 list"
  assumes "sorted starts"
  shows "\<exists>r. Search (length starts)
            (\<lambda>i. case index_at starts i of Inl e \<Rightarrow> Inl e | Inr s \<Rightarrow> Inr (addr \<le> s)) = Inr r \<and>
          r \<le> length starts \<and>
          (\<forall>k<r. starts ! k < addr) \<and>
          (\<forall>k. r \<le> k \<and> k < length starts \<longrightarrow> addr \<le> starts ! k)"
  unfolding Search_def
  by (rule search_loop_inv [OF assms]) (auto simp: index_at_def)

text \<open>An address that is no entry of the sorted array is no function start.\<close>

lemma isFunctionStart_no_entry:
  fixes starts :: "u64 list"
  assumes "sorted starts" and "addr \<notin> set starts"
  shows "isFunctionStart starts addr = Inr 0"
proof -
  from Search_sorted [OF assms(1), of addr] obtain r where
    r: "Search (length starts)
          (\<lambda>i. case index_at starts i of Inl e \<Rightarrow> Inl e | Inr s \<Rightarrow> Inr (addr \<le> s)) = Inr r"
    by blast
  have "\<not> (r < length starts \<and> starts ! r = addr)"
    using assms(2) by (auto simp: in_set_conv_nth)
  with r show ?thesis by (auto simp: isFunctionStart_def)
qed

text \<open>On a strictly ascending array the search finds an entry at its own index.\<close>

lemma Search_strict_entry:
  fixes starts :: "u64 list"
  assumes "sorted_wrt (<) starts" and "k < length starts"
  shows "Search (length starts)
           (\<lambda>i. case index_at starts i of Inl e \<Rightarrow> Inl e | Inr s \<Rightarrow> Inr (starts ! k \<le> s)) = Inr k"
proof -
  have srt: "sorted starts"
    using assms(1) by (simp add: strict_sorted_iff)
  from Search_sorted [OF srt, of "starts ! k"] obtain r where
    r: "Search (length starts)
          (\<lambda>i. case index_at starts i of Inl e \<Rightarrow> Inl e | Inr s \<Rightarrow> Inr (starts ! k \<le> s)) = Inr r"
    and lo: "\<forall>j<r. starts ! j < starts ! k"
    and hi: "\<forall>j. r \<le> j \<and> j < length starts \<longrightarrow> starts ! k \<le> starts ! j"
    by blast
  have "r \<le> k" using lo by (meson less_irrefl not_le)
  moreover have "\<not> r < k"
  proof
    assume "r < k"
    then have "starts ! r < starts ! k"
      using assms by (simp add: sorted_wrt_iff_nth_less)
    moreover have "starts ! k \<le> starts ! r"
      using hi \<open>r < k\<close> assms(2) by simp
    ultimately show False by simp
  qed
  ultimately have "r = k" by simp
  with r show ?thesis by simp
qed

text \<open>An entry that has a successor: the size is the distance to it, and it is not 0.\<close>

lemma isFunctionStart_entry:
  fixes starts :: "u64 list"
  assumes "sorted_wrt (<) starts" and "Suc k < length starts"
  shows "isFunctionStart starts (starts ! k) = Inr (starts ! Suc k - starts ! k)"
proof -
  have k: "k < length starts" using assms(2) by simp
  show ?thesis
    unfolding isFunctionStart_def Search_strict_entry [OF assms(1) k]
    using assms(2) by (simp add: index_at_def)
qed

lemma isFunctionStart_entry_nonzero:
  fixes starts :: "u64 list"
  assumes "sorted_wrt (<) starts" and "Suc k < length starts"
  shows "starts ! Suc k - starts ! k \<noteq> 0"
proof -
  have "starts ! k < starts ! Suc k"
    using assms by (simp add: sorted_wrt_iff_nth_less)
  then show ?thesis by simp
qed

text \<open>The last entry has no successor: \<^verbatim>\<open>starts[i+1]\<close> is out of range.\<close>

lemma isFunctionStart_last_entry:
  fixes starts :: "u64 list"
  assumes "sorted_wrt (<) starts" and "starts \<noteq> []"
  shows "isFunctionStart starts (last starts) = Inl IndexOutOfRange"
proof -
  define k where "k = length starts - 1"
  have k: "k < length starts" "\<not> k + 1 < length starts"
    using assms(2) by (simp_all add: k_def)
  have l: "last starts = starts ! k"
    using assms(2) by (simp add: last_conv_nth k_def)
  have "isFunctionStart starts (starts ! k) = Inl IndexOutOfRange"
    unfolding isFunctionStart_def Search_strict_entry [OF assms(1) k(1)]
    using k by (simp add: index_at_def)
  then show ?thesis by (simp add: l)
qed

text \<open>
  C6. The lookup is not total: the guard \<^verbatim>\<open>i < len(starts)\<close> covers \<^verbatim>\<open>starts[i]\<close> and
  not \<^verbatim>\<open>starts[i+1]\<close>. On the sorted array \<open>[100, 140, 200]\<close> the address 200, the
  last entry, makes the lookup read index 3 of an array of length 3: it panics and
  returns no value.
\<close>

theorem isFunctionStart_last_entry_panics:
  "isFunctionStart [100, 140, 200] 200 = Inl IndexOutOfRange"
  by code_simp

section \<open>The annotation of one instruction\<close>

text \<open>
  A symbol is shown as it is unless the demangle flag is set; with the flag set, an empty
  name makes \<^verbatim>\<open>doDemangle\<close> panic at \<^verbatim>\<open>name[0]\<close>.
\<close>

lemma symText_plain: "\<not> demangleFlag env \<Longrightarrow> symText env symb = Inr symb"
  by (simp add: symText_def)

lemma symText_empty: "demangleFlag env \<Longrightarrow> symText env [] = Inl IndexOutOfRange"
  by (simp add: symText_def doDemangle_def index_at_def)

lemma HasPrefix_b: "HasPrefix mn ''b'' \<Longrightarrow> mn \<noteq> ''ldr'' \<and> mn \<noteq> ''add''"
  by (auto simp: HasPrefix_def)

lemma branchBlock_other:
  "\<not> HasPrefix (Mnemonic insn) ''b'' \<Longrightarrow> branchBlock env m insn = Inr insn"
  by (simp add: branchBlock_def)

lemma adrpBlock_other:
  "Mnemonic insn \<noteq> ''ldr'' \<Longrightarrow> Mnemonic insn \<noteq> ''add'' \<Longrightarrow>
   adrpBlock env m insns i insn = Inr insn"
  by (simp add: adrpBlock_def)


lemma annotate_branch:
  assumes "HasPrefix (Mnemonic (insns ! i)) ''b''"
  shows "annotate env m insns i = branchBlock env m (insns ! i)"
  using HasPrefix_b [OF assms] by (simp add: annotate_def adrpBlock_other)



lemma markup_Mnemonic: "markup env m insn a = Inr insn' \<Longrightarrow> Mnemonic insn' = Mnemonic insn"
  by (auto simp: markup_def split: option.splits sum.splits)

text \<open>
  In verbose mode, on a load or an add that follows an \<^verbatim>\<open>adrp\<close>, both with more than
  one operand, the annotation is the markup with the address of the pair: the branch
  block leaves a load and an add alone.
\<close>

lemma annotate_pair:
  assumes "Verbose env" and "Suc j < length insns"
    and "Mnemonic (insns ! j) = ''adrp''"
    and "1 < length (Operands (insns ! j))"
    and "Mnemonic (insns ! Suc j) = ''ldr'' \<or> Mnemonic (insns ! Suc j) = ''add''"
    and "1 < length (Operands (insns ! Suc j))"
    and "adrpAddress (insns ! j) (insns ! Suc j) = Inr a"
  shows "annotate env m insns (Suc j) = markup env m (insns ! Suc j) a"
proof -
  have blk: "adrpBlock env m insns (Suc j) (insns ! Suc j) = markup env m (insns ! Suc j) a"
    using assms by (simp add: adrpBlock_def index_at_def)
  show ?thesis
  proof (cases "markup env m (insns ! Suc j) a")
    case (Inl e)
    then show ?thesis by (simp add: annotate_def blk)
  next
    case (Inr insn')
    have "\<not> HasPrefix (Mnemonic insn') ''b''"
      using markup_Mnemonic [OF Inr] assms(5) by (auto simp: HasPrefix_def)
    then show ?thesis by (simp add: annotate_def blk Inr branchBlock_other)
  qed
qed

lemma annotate_adrp_ldr:
  assumes "Verbose env" and "Suc j < length insns"
    and "Mnemonic (insns ! j) = ''adrp''"
    and "1 < length (Operands (insns ! j))"
    and "Mnemonic (insns ! Suc j) = ''ldr''"
    and "1 < length (Operands (insns ! Suc j))"
    and "Base (Mem (Operands (insns ! Suc j) ! 1)) = Reg (Operands (insns ! j) ! 0)"
    and "FindAddressSymbol m
           (Imm (Operands (insns ! j) ! 1) + scast (Disp (Mem (Operands (insns ! Suc j) ! 1))))
         = Some symb"
    and "symText env symb = Inr t"
  shows "annotate env m insns (Suc j) =
           Inr ((insns ! Suc j)\<lparr>OpStr := OpStr (insns ! Suc j) @ '' // '' @ t\<rparr>)"
proof -
  have a: "adrpAddress (insns ! j) (insns ! Suc j) =
      Inr (Imm (Operands (insns ! j) ! 1) + scast (Disp (Mem (Operands (insns ! Suc j) ! 1))))"
    using assms(5,7) by (simp add: adrpAddress_def)
  have b: "adrpBlock env m insns (Suc j) (insns ! Suc j) =
      Inr ((insns ! Suc j)\<lparr>OpStr := OpStr (insns ! Suc j) @ '' // '' @ t\<rparr>)"
    using assms a by (simp add: adrpBlock_def index_at_def markup_def)
  show ?thesis
    using assms(5) by (simp add: annotate_def b branchBlock_def HasPrefix_def)
qed

text \<open>
  C1 (amended). In verbose mode, when an \<^verbatim>\<open>adrp\<close> with its two operands (register, page)
  is immediately followed by an \<^verbatim>\<open>ldr\<close> with its two operands whose memory operand has
  the register of the \<^verbatim>\<open>adrp\<close> as its base, and the symbol lookup at page plus
  displacement finds a symbol, then:
  with the demangle flag off, the operand text of the \<^verbatim>\<open>ldr\<close> is the decoder's text
  followed by \<open>" // "\<close> and the symbol name;
  with the demangle flag set, it is the decoder's text followed by \<open>" // "\<close> and the
  output of \<^verbatim>\<open>doDemangle\<close> for the name, when \<^verbatim>\<open>doDemangle\<close> returns one.
  In both cases the decoder's text is kept as a prefix. The instructions of the claim
  are the instance with register \<open>x8\<close> and displacement \<open>0xcb8\<close>.
\<close>

theorem adrp_ldr_comment:
  assumes "Verbose env" and "Suc j < length insns"
    and "Mnemonic (insns ! j) = ''adrp''"
    and "1 < length (Operands (insns ! j))"
    and "Mnemonic (insns ! Suc j) = ''ldr''"
    and "1 < length (Operands (insns ! Suc j))"
    and "Base (Mem (Operands (insns ! Suc j) ! 1)) = Reg (Operands (insns ! j) ! 0)"
    and "FindAddressSymbol m
           (Imm (Operands (insns ! j) ! 1) + scast (Disp (Mem (Operands (insns ! Suc j) ! 1))))
         = Some symb"
  shows "(\<not> demangleFlag env \<longrightarrow>
            annotate env m insns (Suc j) =
              Inr ((insns ! Suc j)\<lparr>OpStr := OpStr (insns ! Suc j) @ '' // '' @ symb\<rparr>)) \<and>
         (\<forall>d. demangleFlag env \<and> doDemangle (Filter env) symb = Inr d \<longrightarrow>
            annotate env m insns (Suc j) =
              Inr ((insns ! Suc j)\<lparr>OpStr := OpStr (insns ! Suc j) @ '' // '' @ d\<rparr>))"
proof (intro conjI impI allI)
  assume "\<not> demangleFlag env"
  then have "symText env symb = Inr symb" by (rule symText_plain)
  from annotate_adrp_ldr [OF assms this]
  show "annotate env m insns (Suc j) =
      Inr ((insns ! Suc j)\<lparr>OpStr := OpStr (insns ! Suc j) @ '' // '' @ symb\<rparr>)" .
next
  fix d assume "demangleFlag env \<and> doDemangle (Filter env) symb = Inr d"
  then have "symText env symb = Inr d" by (simp add: symText_def)
  from annotate_adrp_ldr [OF assms this]
  show "annotate env m insns (Suc j) =
      Inr ((insns ! Suc j)\<lparr>OpStr := OpStr (insns ! Suc j) @ '' // '' @ d\<rparr>)" .
qed

theorem adrp_ldr_comment_witness:
  "Verbose sample_env \<and>
   FindAddressSymbol sample_macho (0x100008000 + 0xcb8) = Some ''_objc_msgSend'' \<and>
   annotate sample_env sample_macho [sample_adrp, sample_ldr] (Suc 0) =
     Inr (sample_ldr\<lparr>OpStr := ''x8, [x8, #0xcb8] // _objc_msgSend''\<rparr>) \<and>
   annotate demangle_env cxx_macho [sample_adrp, sample_ldr] (Suc 0) =
     Inr (sample_ldr\<lparr>OpStr := ''x8, [x8, #0xcb8] // foo()''\<rparr>)"
proof -
  have d: "doDemangle sample_filter ''__Z3foov'' = Inr ''foo()''"
    by (simp add: doDemangle_def index_at_def sample_filter_def)
  have 1: "annotate sample_env sample_macho [sample_adrp, sample_ldr] (Suc 0) =
     Inr (sample_ldr\<lparr>OpStr := ''x8, [x8, #0xcb8] // _objc_msgSend''\<rparr>)"
    using adrp_ldr_comment [of sample_env 0 "[sample_adrp, sample_ldr]" sample_macho
        "''_objc_msgSend''"]
    by (simp add: sample_env_def sample_macho_def sample_adrp_def sample_ldr_def reg_op_def
        imm_op_def mem_op_def)
  have 2: "annotate demangle_env cxx_macho [sample_adrp, sample_ldr] (Suc 0) =
     Inr (sample_ldr\<lparr>OpStr := ''x8, [x8, #0xcb8] // foo()''\<rparr>)"
    using adrp_ldr_comment [of demangle_env 0 "[sample_adrp, sample_ldr]" cxx_macho
        "''__Z3foov''"] d
    by (simp add: demangle_env_def cxx_macho_def sample_env_def sample_macho_def
        sample_adrp_def sample_ldr_def reg_op_def imm_op_def mem_op_def)
  show ?thesis using 1 2 by (simp add: sample_env_def sample_macho_def)
qed

text \<open>
  C1 as stated fails without verbose mode: the same pair, the same symbol, and the
  \<^verbatim>\<open>ldr\<close> is printed with the decoder's operand text and no comment. It fails with
  the demangle flag as well: the comment for the symbol \<^verbatim>\<open>__Z3foov\<close> is \<^verbatim>\<open>foo()\<close>, not
  the symbol, and for a symbol with the empty name \<^verbatim>\<open>doDemangle\<close> panics at \<^verbatim>\<open>name[0]\<close>
  and the \<^verbatim>\<open>ldr\<close> is not printed at all.
\<close>

theorem adrp_ldr_quiet_counterexample:
  "FindAddressSymbol sample_macho (0x100008000 + 0xcb8) = Some ''_objc_msgSend'' \<and>
   scan (sample_env\<lparr>Verbose := False\<rparr>) sample_macho [sample_adrp, sample_ldr] [0..<2] =
     ([InsnLine 0x100004000 ''adrp'' ''x8, #0x100008000'',
       InsnLine 0x100004004 ''ldr'' ''x8, [x8, #0xcb8]''], None) \<and>
   FindAddressSymbol cxx_macho (0x100008000 + 0xcb8) = Some ''__Z3foov'' \<and>
   scan demangle_env cxx_macho [sample_adrp, sample_ldr] [0..<2] =
     ([InsnLine 0x100004000 ''adrp'' ''x8, #0x100008000'',
       InsnLine 0x100004004 ''ldr'' ''x8, [x8, #0xcb8] // foo()''], None) \<and>
   FindAddressSymbol noname_macho (0x100008000 + 0xcb8) = Some [] \<and>
   scan demangle_env noname_macho [sample_adrp, sample_ldr] [0..<2] =
     ([InsnLine 0x100004000 ''adrp'' ''x8, #0x100008000''], Some IndexOutOfRange)"
  by code_simp

text \<open>
  A branch with a literal target and a decoded first operand, where the symbol lookup at
  the target finds a symbol: the annotation is the instruction with the symbol, as
  \<open>symText\<close> gives it, for its operand text.
\<close>

lemma annotate_branch_found:
  assumes "HasPrefix (Mnemonic (insns ! i)) ''b''"
    and "HasPrefix (OpStr (insns ! i)) ''#0x''"
    and "0 < length (Operands (insns ! i))"
    and "FindAddressSymbol m (Imm (Operands (insns ! i) ! 0)) = Some symb"
  shows "annotate env m insns i =
           (case symText env symb of
              Inl e \<Rightarrow> Inl e
            | Inr t \<Rightarrow> Inr ((insns ! i)\<lparr>OpStr := t\<rparr>))"
  using assms by (simp add: annotate_branch branchBlock_def)

text \<open>
  C2 (amended). An instruction whose mnemonic begins with \<open>b\<close>, whose operand text
  begins with \<open>#0x\<close> and whose first operand holds the target: when the symbol lookup at
  the target finds a symbol, the operand text is replaced, with the demangle flag off by
  the symbol name, and with the demangle flag set by the output of \<^verbatim>\<open>doDemangle\<close> for
  the name, when \<^verbatim>\<open>doDemangle\<close> returns one; when the lookup finds no symbol, the
  instruction stays as it is.
\<close>

theorem branch_operand_replaced:
  assumes "HasPrefix (Mnemonic (insns ! i)) ''b''"
    and "HasPrefix (OpStr (insns ! i)) ''#0x''"
    and "0 < length (Operands (insns ! i))"
  shows "(\<forall>symb. FindAddressSymbol m (Imm (Operands (insns ! i) ! 0)) = Some symb \<and>
                 \<not> demangleFlag env \<longrightarrow>
            annotate env m insns i = Inr ((insns ! i)\<lparr>OpStr := symb\<rparr>)) \<and>
         (\<forall>symb d. FindAddressSymbol m (Imm (Operands (insns ! i) ! 0)) = Some symb \<and>
                   demangleFlag env \<and> doDemangle (Filter env) symb = Inr d \<longrightarrow>
            annotate env m insns i = Inr ((insns ! i)\<lparr>OpStr := d\<rparr>)) \<and>
         (FindAddressSymbol m (Imm (Operands (insns ! i) ! 0)) = None \<longrightarrow>
            annotate env m insns i = Inr (insns ! i))"
proof (intro conjI impI allI)
  fix symb
  assume "FindAddressSymbol m (Imm (Operands (insns ! i) ! 0)) = Some symb \<and>
      \<not> demangleFlag env"
  then show "annotate env m insns i = Inr ((insns ! i)\<lparr>OpStr := symb\<rparr>)"
    using annotate_branch_found [OF assms, of m symb env] by (simp add: symText_def)
next
  fix symb d
  assume "FindAddressSymbol m (Imm (Operands (insns ! i) ! 0)) = Some symb \<and>
      demangleFlag env \<and> doDemangle (Filter env) symb = Inr d"
  then show "annotate env m insns i = Inr ((insns ! i)\<lparr>OpStr := d\<rparr>)"
    using annotate_branch_found [OF assms, of m symb env] by (simp add: symText_def)
next
  assume "FindAddressSymbol m (Imm (Operands (insns ! i) ! 0)) = None"
  then show "annotate env m insns i = Inr (insns ! i)"
    using assms by (simp add: annotate_branch branchBlock_def)
qed

theorem branch_operand_replaced_witness:
  "annotate sample_env sample_macho [sample_bl] 0 = Inr (sample_bl\<lparr>OpStr := ''_objc_msgSend''\<rparr>) \<and>
   annotate demangle_env cxx_macho [sample_bl] 0 = Inr (sample_bl\<lparr>OpStr := ''foo()''\<rparr>) \<and>
   annotate sample_env (sample_macho\<lparr>FindAddressSymbol := (\<lambda>a. None)\<rparr>) [sample_bl] 0 =
     Inr sample_bl"
proof -
  have d: "doDemangle sample_filter ''__Z3foov'' = Inr ''foo()''"
    by (simp add: doDemangle_def index_at_def sample_filter_def)
  have 1: "annotate sample_env sample_macho [sample_bl] 0 =
      Inr (sample_bl\<lparr>OpStr := ''_objc_msgSend''\<rparr>)"
    using branch_operand_replaced [of "[sample_bl]" 0 sample_macho sample_env]
    by (simp add: sample_env_def sample_macho_def sample_bl_def imm_op_def HasPrefix_def)
  have 2: "annotate demangle_env cxx_macho [sample_bl] 0 = Inr (sample_bl\<lparr>OpStr := ''foo()''\<rparr>)"
    using branch_operand_replaced [of "[sample_bl]" 0 cxx_macho demangle_env] d
    by (simp add: demangle_env_def cxx_macho_def sample_env_def sample_macho_def
        sample_bl_def imm_op_def HasPrefix_def)
  have 3: "annotate sample_env (sample_macho\<lparr>FindAddressSymbol := (\<lambda>a. None)\<rparr>) [sample_bl] 0 =
      Inr sample_bl"
    using branch_operand_replaced [of "[sample_bl]" 0
        "sample_macho\<lparr>FindAddressSymbol := (\<lambda>a. None)\<rparr>" sample_env]
    by (simp add: sample_bl_def HasPrefix_def)
  show ?thesis using 1 2 3 by simp
qed

text \<open>
  C2 as stated fails with the demangle flag: the branch to the symbol \<^verbatim>\<open>__Z3foov\<close> is
  printed with the operand text \<^verbatim>\<open>foo()\<close>, which is not the symbol name; and for a
  symbol with the empty name \<^verbatim>\<open>doDemangle\<close> panics at \<^verbatim>\<open>name[0]\<close>, so the branch is
  not printed and nothing is replaced.
\<close>

theorem branch_demangle_counterexample:
  "HasPrefix (Mnemonic sample_bl) ''b'' \<and>
   FindAddressSymbol cxx_macho (Imm (Operands sample_bl ! 0)) = Some ''__Z3foov'' \<and>
   scan demangle_env cxx_macho [sample_bl] [0..<1] =
     ([InsnLine 0x100004008 ''bl'' ''foo()''], None) \<and>
   FindAddressSymbol noname_macho (Imm (Operands sample_bl ! 0)) = Some [] \<and>
   scan demangle_env noname_macho [sample_bl] [0..<1] = ([], Some IndexOutOfRange)"
  by code_simp

text \<open>
  C4. For an \<^verbatim>\<open>add\<close> the source compares the register of the \<^verbatim>\<open>adrp\<close> with operand 0
  of the \<^verbatim>\<open>add\<close>, its destination, and not with its base register, operand 1. After
  \<^verbatim>\<open>adrp x8, #0x100008000\<close>, the instruction \<^verbatim>\<open>add x0, x8, #0xcb8\<close> has the base
  \<open>x8\<close> and yet the immediate is not added (the address stays the page, and the symbol at
  \<open>0x100008cb8\<close> is not shown), while \<^verbatim>\<open>add x8, x9, #0xcb8\<close> has the base \<open>x9\<close> and
  the immediate is added.
\<close>

theorem adrp_add_compares_destination:
  "adrpAddress sample_adrp sample_add = Inr 0x100008000 \<and>
   annotate sample_env sample_macho [sample_adrp, sample_add] 1 = Inr sample_add \<and>
   adrpAddress sample_adrp sample_add_other = Inr 0x100008cb8 \<and>
   annotate sample_env sample_macho [sample_adrp, sample_add_other] 1 =
     Inr (sample_add_other\<lparr>OpStr := ''x8, x9, #0xcb8 // _objc_msgSend''\<rparr>)"
  by code_simp

text \<open>
  C5 (amended). Where the address \<open>a\<close> of an \<^verbatim>\<open>adrp\<close> pair is resolved (verbose mode, a
  load or an add after an \<^verbatim>\<open>adrp\<close>, both with more than one operand): the symbol lookup
  comes first. A symbol found at \<open>a\<close> makes the comment, with the demangle flag off the
  symbol name, and with the demangle flag set the output of \<^verbatim>\<open>doDemangle\<close> for the
  name, when \<^verbatim>\<open>doDemangle\<close> returns one; and where a symbol is found the result does
  not depend on the string lookup at all. With no symbol, a string read at \<open>a\<close> is the
  comment; with neither, the instruction is left as it is.
\<close>

theorem label_symbol_then_cstring:
  assumes "Verbose env" and "Suc j < length insns"
    and "Mnemonic (insns ! j) = ''adrp''"
    and "1 < length (Operands (insns ! j))"
    and "Mnemonic (insns ! Suc j) = ''ldr'' \<or> Mnemonic (insns ! Suc j) = ''add''"
    and "1 < length (Operands (insns ! Suc j))"
    and "adrpAddress (insns ! j) (insns ! Suc j) = Inr a"
  shows "(\<forall>symb. FindAddressSymbol m a = Some symb \<and> \<not> demangleFlag env \<longrightarrow>
            annotate env m insns (Suc j) =
              Inr ((insns ! Suc j)\<lparr>OpStr := OpStr (insns ! Suc j) @ '' // '' @ symb\<rparr>)) \<and>
         (\<forall>symb d. FindAddressSymbol m a = Some symb \<and> demangleFlag env \<and>
                   doDemangle (Filter env) symb = Inr d \<longrightarrow>
            annotate env m insns (Suc j) =
              Inr ((insns ! Suc j)\<lparr>OpStr := OpStr (insns ! Suc j) @ '' // '' @ d\<rparr>)) \<and>
         (\<forall>symb g. FindAddressSymbol m a = Some symb \<longrightarrow>
            annotate env (m\<lparr>GetCString := g\<rparr>) insns (Suc j) = annotate env m insns (Suc j)) \<and>
         (\<forall>cstr. FindAddressSymbol m a = None \<and> GetCString m a = Some cstr \<longrightarrow>
            annotate env m insns (Suc j) =
              Inr ((insns ! Suc j)\<lparr>OpStr := OpStr (insns ! Suc j) @ '' // '' @ cstr\<rparr>)) \<and>
         (FindAddressSymbol m a = None \<and> GetCString m a = None \<longrightarrow>
            annotate env m insns (Suc j) = Inr (insns ! Suc j))"
  by (simp add: annotate_pair [OF assms] markup_def symText_def)

theorem label_symbol_then_cstring_witness:
  "annotate sample_env sample_macho [sample_adrp, sample_ldr] (Suc 0) =
     Inr (sample_ldr\<lparr>OpStr := ''x8, [x8, #0xcb8] // _objc_msgSend''\<rparr>) \<and>
   annotate demangle_env cxx_macho [sample_adrp, sample_ldr] (Suc 0) =
     Inr (sample_ldr\<lparr>OpStr := ''x8, [x8, #0xcb8] // foo()''\<rparr>) \<and>
   annotate sample_env (sample_macho\<lparr>GetCString := (\<lambda>a. Some ''hello'')\<rparr>)
       [sample_adrp, sample_ldr] (Suc 0) =
     annotate sample_env sample_macho [sample_adrp, sample_ldr] (Suc 0) \<and>
   annotate sample_env
       (sample_macho\<lparr>FindAddressSymbol := (\<lambda>a. None), GetCString := (\<lambda>a. Some ''hello'')\<rparr>)
       [sample_adrp, sample_ldr] (Suc 0) =
     Inr (sample_ldr\<lparr>OpStr := ''x8, [x8, #0xcb8] // hello''\<rparr>) \<and>
   annotate sample_env (sample_macho\<lparr>FindAddressSymbol := (\<lambda>a. None)\<rparr>)
       [sample_adrp, sample_ldr] (Suc 0) =
     Inr sample_ldr"
proof -
  have a: "adrpAddress ([sample_adrp, sample_ldr] ! 0) ([sample_adrp, sample_ldr] ! Suc 0) =
      Inr 0x100008cb8"
    by (simp add: adrpAddress_def sample_adrp_def sample_ldr_def reg_op_def imm_op_def
        mem_op_def)
  have v: "Verbose sample_env" by (simp add: sample_env_def)
  have v': "Verbose demangle_env" by (simp add: demangle_env_def sample_env_def)
  have l: "Suc 0 < length [sample_adrp, sample_ldr]" by simp
  have p: "Mnemonic ([sample_adrp, sample_ldr] ! 0) = ''adrp''"
    "1 < length (Operands ([sample_adrp, sample_ldr] ! 0))"
    by (simp_all add: sample_adrp_def)
  have c: "Mnemonic ([sample_adrp, sample_ldr] ! Suc 0) = ''ldr'' \<or>
      Mnemonic ([sample_adrp, sample_ldr] ! Suc 0) = ''add''"
    "1 < length (Operands ([sample_adrp, sample_ldr] ! Suc 0))"
    by (simp_all add: sample_ldr_def)
  note T = label_symbol_then_cstring [OF v l p c a]
  note T' = label_symbol_then_cstring [OF v' l p c a]
  have f: "FindAddressSymbol sample_macho 0x100008cb8 = Some ''_objc_msgSend''"
    by (simp add: sample_macho_def)
  have f': "FindAddressSymbol cxx_macho 0x100008cb8 = Some ''__Z3foov''"
    by (simp add: cxx_macho_def)
  have nd: "\<not> demangleFlag sample_env" by (simp add: sample_env_def)
  have dm: "demangleFlag demangle_env" by (simp add: demangle_env_def)
  have d: "doDemangle (Filter demangle_env) ''__Z3foov'' = Inr ''foo()''"
    by (simp add: doDemangle_def index_at_def sample_filter_def demangle_env_def)
  have o: "OpStr sample_ldr = ''x8, [x8, #0xcb8]''" by (simp add: sample_ldr_def)
  have 1: "annotate sample_env sample_macho [sample_adrp, sample_ldr] (Suc 0) =
     Inr (sample_ldr\<lparr>OpStr := ''x8, [x8, #0xcb8] // _objc_msgSend''\<rparr>)"
    using T [of sample_macho, THEN conjunct1] f nd by (simp add: o)
  have dmg: "annotate demangle_env cxx_macho [sample_adrp, sample_ldr] (Suc 0) =
     Inr (sample_ldr\<lparr>OpStr := ''x8, [x8, #0xcb8] // foo()''\<rparr>)"
    using T' [of cxx_macho, THEN conjunct2, THEN conjunct1] f' dm d by (simp add: o)
  have 2: "annotate sample_env (sample_macho\<lparr>GetCString := (\<lambda>a. Some ''hello'')\<rparr>)
       [sample_adrp, sample_ldr] (Suc 0) =
     annotate sample_env sample_macho [sample_adrp, sample_ldr] (Suc 0)"
    using T [of sample_macho, THEN conjunct2, THEN conjunct2, THEN conjunct1] f by blast
  have 3: "annotate sample_env
       (sample_macho\<lparr>FindAddressSymbol := (\<lambda>a. None), GetCString := (\<lambda>a. Some ''hello'')\<rparr>)
       [sample_adrp, sample_ldr] (Suc 0) =
     Inr (sample_ldr\<lparr>OpStr := ''x8, [x8, #0xcb8] // hello''\<rparr>)"
    using T [of "sample_macho\<lparr>FindAddressSymbol := (\<lambda>a. None), GetCString := (\<lambda>a. Some ''hello'')\<rparr>",
        THEN conjunct2, THEN conjunct2, THEN conjunct2, THEN conjunct1]
    by (simp add: o)
  have 4: "annotate sample_env (sample_macho\<lparr>FindAddressSymbol := (\<lambda>a. None)\<rparr>)
       [sample_adrp, sample_ldr] (Suc 0) = Inr sample_ldr"
    using T [of "sample_macho\<lparr>FindAddressSymbol := (\<lambda>a. None)\<rparr>",
        THEN conjunct2, THEN conjunct2, THEN conjunct2, THEN conjunct2]
    by (simp add: sample_macho_def)
  from 1 dmg 2 3 4 show ?thesis by blast
qed

text \<open>
  C5 as stated fails with the demangle flag: after \<^verbatim>\<open>adrp x8, #0x100008000\<close> the
  instruction \<^verbatim>\<open>add x8, x8, #0xcb8\<close> refers to the symbol \<^verbatim>\<open>__Z3foov\<close> and its
  comment is \<^verbatim>\<open>foo()\<close>, which is not the symbol name; and where the symbol found has
  the empty name, \<^verbatim>\<open>doDemangle\<close> panics at \<^verbatim>\<open>name[0]\<close> and the instruction is not
  printed.
\<close>

theorem label_demangle_counterexample:
  "adrpAddress sample_adrp sample_add_same = Inr 0x100008cb8 \<and>
   FindAddressSymbol cxx_macho 0x100008cb8 = Some ''__Z3foov'' \<and>
   scan demangle_env cxx_macho [sample_adrp, sample_add_same] [0..<2] =
     ([InsnLine 0x100004000 ''adrp'' ''x8, #0x100008000'',
       InsnLine 0x100004004 ''add'' ''x8, x8, #0xcb8 // foo()''], None) \<and>
   FindAddressSymbol noname_macho 0x100008cb8 = Some [] \<and>
   scan demangle_env noname_macho [sample_adrp, sample_add_same] [0..<2] =
     ([InsnLine 0x100004000 ''adrp'' ''x8, #0x100008000''], Some IndexOutOfRange)"
  by code_simp



section \<open>The scan and its iterations\<close>

text \<open>
  What the scan prints is what its iterations print, in their order, up to the first one
  that panics.
\<close>

lemma scan_single: "scan env m insns [i] = loopBody env m insns i"
  by (simp split: prod.splits option.splits)

lemma scan_append:
  "scan env m insns (xs @ ys) =
     (case scan env m insns xs of
        (out, Some e) \<Rightarrow> (out, Some e)
      | (out, None) \<Rightarrow> (case scan env m insns ys of (out', r) \<Rightarrow> (out @ out', r)))"
  by (induction xs) (auto split: prod.splits option.splits)

lemma scan_at:
  assumes "i < n"
  shows "scan env m insns [0..<n] =
     (case scan env m insns [0..<i] of
        (before, Some e) \<Rightarrow> (before, Some e)
      | (before, None) \<Rightarrow>
          (case loopBody env m insns i of
             (out, Some e) \<Rightarrow> (before @ out, Some e)
           | (out, None) \<Rightarrow>
               (case scan env m insns [Suc i..<n] of
                  (after, r) \<Rightarrow> (before @ out @ after, r))))"
proof -
  have "[0..<n] = [0..<i] @ [i] @ [Suc i..<n]"
    using assms by (metis append_Cons append_Nil less_imp_le_nat upt_add_eq_append
        upt_conv_Cons le_add_diff_inverse zero_le)
  then show ?thesis
    by (simp add: scan_append [of env m insns "[0..<i]"] split: prod.splits option.splits)
qed

section \<open>The label at the start of a function\<close>

text \<open>
  On a sorted array the search stops at the first occurrence of an entry; where the next
  entry is larger, the size is the distance to it, and it is not 0.
\<close>

lemma Search_first_entry:
  fixes starts :: "u64 list"
  assumes "sorted starts" and "k < length starts" and "\<forall>j<k. starts ! j < starts ! k"
  shows "Search (length starts)
           (\<lambda>i. case index_at starts i of Inl e \<Rightarrow> Inl e | Inr s \<Rightarrow> Inr (starts ! k \<le> s)) = Inr k"
proof -
  from Search_sorted [OF assms(1), of "starts ! k"] obtain r where
    r: "Search (length starts)
          (\<lambda>i. case index_at starts i of Inl e \<Rightarrow> Inl e | Inr s \<Rightarrow> Inr (starts ! k \<le> s)) = Inr r"
    and lo: "\<forall>j<r. starts ! j < starts ! k"
    and hi: "\<forall>j. r \<le> j \<and> j < length starts \<longrightarrow> starts ! k \<le> starts ! j"
    by blast
  have "r \<le> k" using lo by (meson less_irrefl not_le)
  moreover have "\<not> r < k"
  proof
    assume "r < k"
    then have "starts ! r < starts ! k" using assms(3) by simp
    moreover have "starts ! k \<le> starts ! r"
      using hi \<open>r < k\<close> assms(2) by simp
    ultimately show False by simp
  qed
  ultimately have "r = k" by simp
  with r show ?thesis by simp
qed

lemma isFunctionStart_first_entry:
  fixes starts :: "u64 list"
  assumes "sorted starts" and "Suc k < length starts" and "\<forall>j<k. starts ! j < starts ! k"
  shows "isFunctionStart starts (starts ! k) = Inr (starts ! Suc k - starts ! k)"
proof -
  have k: "k < length starts" using assms(2) by simp
  show ?thesis
    unfolding isFunctionStart_def Search_first_entry [OF assms(1) k assms(3)]
    using assms(2) by (simp add: index_at_def)
qed

lemma functionHeader_first_entry:
  fixes starts :: "u64 list"
  assumes "FunctionStarts m = Some starts" and "sorted starts"
    and "Suc k < length starts" and "\<forall>j<k. starts ! j < starts ! k"
    and "starts ! k < starts ! Suc k"
    and "Address insn = starts ! k"
    and "FindAddressSymbol m (starts ! k) = Some symb"
  shows "functionHeader env m insn =
           (case symText env symb of Inl e \<Rightarrow> Inl e | Inr t \<Rightarrow> Inr [FuncLabel t])"
proof -
  have nz: "starts ! Suc k - starts ! k \<noteq> 0" using assms(5) by simp
  show ?thesis
    using assms(1,6,7) nz
    by (simp add: functionHeader_def isFunctionStart_first_entry [OF assms(2,3,4)])
qed

text \<open>
  C7 (amended). When the address of an instruction is an entry of the sorted array of
  function starts that occurs once in it and is not its last entry (no earlier entry is
  equal to it and the next entry is larger), and the symbol lookup at that address finds
  a symbol, the iteration prints the label first and the line of the instruction after
  it (the label alone where the annotation of the instruction panics). The label is the symbol name with the demangle flag off, and the output of
  \<^verbatim>\<open>doDemangle\<close> for the name with the demangle flag set, when \<^verbatim>\<open>doDemangle\<close> returns
  one.
\<close>

theorem function_label_before_line:
  fixes starts :: "u64 list"
  assumes "FunctionStarts m = Some starts" and "sorted starts"
    and "Suc k < length starts" and "\<forall>j<k. starts ! j < starts ! k"
    and "starts ! k < starts ! Suc k"
    and "Address (insns ! i) = starts ! k"
    and "FindAddressSymbol m (starts ! k) = Some symb"
  shows "(\<not> demangleFlag env \<longrightarrow>
            loopBody env m insns i =
              (case annotate env m insns i of
                 Inl e \<Rightarrow> ([FuncLabel symb], Some e)
               | Inr insn \<Rightarrow>
                   ([FuncLabel symb, InsnLine (Address insn) (Mnemonic insn) (OpStr insn)],
                    None))) \<and>
         (\<forall>d. demangleFlag env \<and> doDemangle (Filter env) symb = Inr d \<longrightarrow>
            loopBody env m insns i =
              (case annotate env m insns i of
                 Inl e \<Rightarrow> ([FuncLabel d], Some e)
               | Inr insn \<Rightarrow>
                   ([FuncLabel d, InsnLine (Address insn) (Mnemonic insn) (OpStr insn)],
                    None)))"
proof (intro conjI impI allI)
  assume "\<not> demangleFlag env"
  then have "functionHeader env m (insns ! i) = Inr [FuncLabel symb]"
    by (simp add: functionHeader_first_entry [OF assms] symText_def)
  then show "loopBody env m insns i =
      (case annotate env m insns i of
         Inl e \<Rightarrow> ([FuncLabel symb], Some e)
       | Inr insn \<Rightarrow>
           ([FuncLabel symb, InsnLine (Address insn) (Mnemonic insn) (OpStr insn)], None))"
    by (simp add: loopBody_def split: sum.splits)
next
  fix d assume "demangleFlag env \<and> doDemangle (Filter env) symb = Inr d"
  then have "functionHeader env m (insns ! i) = Inr [FuncLabel d]"
    by (simp add: functionHeader_first_entry [OF assms] symText_def)
  then show "loopBody env m insns i =
      (case annotate env m insns i of
         Inl e \<Rightarrow> ([FuncLabel d], Some e)
       | Inr insn \<Rightarrow>
           ([FuncLabel d, InsnLine (Address insn) (Mnemonic insn) (OpStr insn)], None))"
    by (simp add: loopBody_def split: sum.splits)
qed

theorem function_label_before_line_witness:
  "loopBody sample_env starts_macho [ret_at 100] 0 =
     ([FuncLabel ''_main'', InsnLine 100 ''ret'' []], None) \<and>
   loopBody sample_env repeat_macho [ret_at 100] 0 =
     ([FuncLabel ''_main'', InsnLine 100 ''ret'' []], None) \<and>
   loopBody demangle_env cxx_starts_macho [ret_at 100] 0 =
     ([FuncLabel ''foo()'', InsnLine 100 ''ret'' []], None)"
proof -
  have a: "annotate env m [ret_at 100] 0 = Inr (ret_at 100)" for env m
    by (simp add: annotate_def adrpBlock_def branchBlock_def HasPrefix_def ret_at_def)
  have r: "Address (ret_at 100) = 100" "Mnemonic (ret_at 100) = ''ret''"
    "OpStr (ret_at 100) = []"
    by (simp_all add: ret_at_def)
  have d: "doDemangle (Filter demangle_env) ''__Z3foov'' = Inr ''foo()''"
    by (simp add: doDemangle_def index_at_def sample_filter_def demangle_env_def)
  have 1: "loopBody sample_env starts_macho [ret_at 100] 0 =
      ([FuncLabel ''_main'', InsnLine 100 ''ret'' []], None)"
    using function_label_before_line [where m = starts_macho and starts = "[100, 140, 200]"
        and k = 0 and insns = "[ret_at 100]" and i = 0 and symb = "''_main''"
        and env = sample_env, THEN conjunct1]
    by (simp add: a r starts_macho_def sample_env_def)
  have 2: "loopBody sample_env repeat_macho [ret_at 100] 0 =
      ([FuncLabel ''_main'', InsnLine 100 ''ret'' []], None)"
    using function_label_before_line [where m = repeat_macho
        and starts = "[100, 140, 200, 200]"
        and k = 0 and insns = "[ret_at 100]" and i = 0 and symb = "''_main''"
        and env = sample_env, THEN conjunct1]
    by (simp add: a r repeat_macho_def starts_macho_def sample_env_def)
  have 3: "loopBody demangle_env cxx_starts_macho [ret_at 100] 0 =
      ([FuncLabel ''foo()'', InsnLine 100 ''ret'' []], None)"
    using function_label_before_line [where m = cxx_starts_macho
        and starts = "[100, 140, 200]"
        and k = 0 and insns = "[ret_at 100]" and i = 0 and symb = "''__Z3foov''"
        and env = demangle_env, THEN conjunct2] d
    by (simp add: a r cxx_starts_macho_def starts_macho_def demangle_env_def)
  show ?thesis using 1 2 3 by simp
qed

text \<open>
  C7 as stated fails in three ways. Where the symbol lookup finds nothing: 140 is an
  entry of the function starts, the file has no symbol at 140, and the instruction at
  140 is printed with no label before it (the one at 100, which has a symbol, gets its
  label). Where the entry is repeated: in \<open>[100, 140, 200, 200]\<close> the size computed at 200
  is 0, and the instruction at 200 is printed with no label although the file has a
  symbol there. With the demangle flag: the label for the symbol \<^verbatim>\<open>__Z3foov\<close> is
  \<^verbatim>\<open>foo()\<close>, not the symbol name.
\<close>

theorem function_label_counterexample:
  "FunctionStarts starts_macho = Some [100, 140, 200] \<and>
   Address (ret_at 140) = [100, 140, 200] ! 1 \<and>
   scan sample_env starts_macho [ret_at 100, ret_at 140] [0..<2] =
     ([FuncLabel ''_main'', InsnLine 100 ''ret'' [], InsnLine 140 ''ret'' []], None) \<and>
   FunctionStarts repeat_macho = Some [100, 140, 200, 200] \<and>
   FindAddressSymbol repeat_macho 200 = Some ''_last'' \<and>
   scan sample_env repeat_macho [ret_at 200] [0..<1] = ([InsnLine 200 ''ret'' []], None) \<and>
   FindAddressSymbol cxx_starts_macho 100 = Some ''__Z3foov'' \<and>
   scan demangle_env cxx_starts_macho [ret_at 100] [0..<1] =
     ([FuncLabel ''foo()'', InsnLine 100 ''ret'' []], None)"
  by code_simp

section \<open>The command\<close>





section \<open>The round trip of the Address Translator\<close>

lemma vaContains_unat:
  "vaContains mp va \<longleftrightarrow>
     unat (addressBase mp) \<le> unat va \<and> unat va < unat (addressBase mp) + unat (mappingSize mp)"
  by (auto simp: vaContains_def word_le_nat_alt word_less_nat_alt unat_sub)

lemma foContains_unat:
  "foContains mp fo \<longleftrightarrow>
     unat (fileOffsetBase mp) \<le> unat fo \<and>
     unat fo < unat (fileOffsetBase mp) + unat (mappingSize mp)"
  by (auto simp: foContains_def word_le_nat_alt word_less_nat_alt unat_sub)

lemma unat_translate:
  fixes b b' x s :: u64
  assumes "unat b \<le> unat x" and "unat x < unat b + unat s" and "unat b' + unat s \<le> 2 ^ 64"
  shows "unat (b' + (x - b)) = unat b' + (unat x - unat b)"
proof -
  have "b \<le> x" using assms(1) by (simp add: word_le_nat_alt)
  then have d: "unat (x - b) = unat x - unat b" by (simp add: unat_sub)
  have "unat b' + unat (x - b) < 2 ^ 64" using assms d by simp
  then have "unat (b' + (x - b)) = unat b' + unat (x - b)"
    by (simp add: unat_add_lem [THEN iffD1])
  with d show ?thesis by simp
qed

lemma sorted_wrt_pair:
  "sorted_wrt P xs \<Longrightarrow> x \<in> set xs \<Longrightarrow> y \<in> set xs \<Longrightarrow> x \<noteq> y \<Longrightarrow> P x y \<or> P y x"
  by (induction xs) auto

lemma vaContains_translate:
  assumes "inBounds mp" and "vaContains mp va"
  shows "foContains mp (fileOffsetBase mp + (va - addressBase mp))"
proof -
  have "unat (fileOffsetBase mp + (va - addressBase mp)) =
          unat (fileOffsetBase mp) + (unat va - unat (addressBase mp))"
    using assms
    by (intro unat_translate [where s = "mappingSize mp"])
      (simp_all add: vaContains_unat inBounds_def)
  then show ?thesis
    using assms(2) unfolding foContains_unat vaContains_unat by linarith
qed

lemma foContains_translate:
  assumes "inBounds mp" and "foContains mp fo"
  shows "vaContains mp (addressBase mp + (fo - fileOffsetBase mp))"
proof -
  have "unat (addressBase mp + (fo - fileOffsetBase mp)) =
          unat (addressBase mp) + (unat fo - unat (fileOffsetBase mp))"
    using assms
    by (intro unat_translate [where s = "mappingSize mp"])
      (simp_all add: foContains_unat inBounds_def)
  then show ?thesis
    using assms(2) unfolding foContains_unat vaContains_unat by linarith
qed

lemma foContains_unique:
  assumes "sorted_wrt foApart mps" and "mp \<in> set mps" and "mp' \<in> set mps"
    and "foContains mp fo" and "foContains mp' fo"
  shows "mp' = mp"
proof (rule ccontr)
  assume "mp' \<noteq> mp"
  then have "foApart mp' mp \<or> foApart mp mp'"
    using sorted_wrt_pair [OF assms(1,3,2)] by simp
  then show False using assms(4,5) by (auto simp: foApart_def foContains_unat)
qed

lemma vaContains_unique:
  assumes "sorted_wrt vaBefore mps" and "mp \<in> set mps" and "mp' \<in> set mps"
    and "vaContains mp va" and "vaContains mp' va"
  shows "mp' = mp"
proof (rule ccontr)
  assume "mp' \<noteq> mp"
  then have "vaBefore mp' mp \<or> vaBefore mp mp'"
    using sorted_wrt_pair [OF assms(1,3,2)] by simp
  then show False using assms(4,5) by (auto simp: vaBefore_def vaContains_unat)
qed

lemma find_in_set:
  "x \<in> set xs \<Longrightarrow> P x \<Longrightarrow> \<exists>y. find P xs = Some y \<and> y \<in> set xs \<and> P y"
  by (induction xs) auto

text \<open>
  C8. On a table of mappings that keeps the invariants of the data model, every virtual
  address inside a mapping translates to a file offset, and translating that offset back
  gives the address again; and the same the other way round, from every file offset
  inside a mapping, so each translation is the inverse of the other.
\<close>

theorem translate_round_trip:
  assumes "mappingsOK mps"
  shows "(\<forall>mp\<in>set mps. \<forall>a. vaContains mp a \<longrightarrow>
            (\<exists>fo. addressToOffset mps a = Inr fo \<and> offsetToAddress mps fo = Inr a)) \<and>
         (\<forall>mp\<in>set mps. \<forall>fo. foContains mp fo \<longrightarrow>
            (\<exists>a. offsetToAddress mps fo = Inr a \<and> addressToOffset mps a = Inr fo))"
proof (intro conjI ballI allI impI)
  fix mp a assume mp: "mp \<in> set mps" and c: "vaContains mp a"
  from assms have ok: "\<forall>x\<in>set mps. inBounds x" and sf: "sorted_wrt foApart mps"
    by (simp_all add: mappingsOK_def list_all_iff)
  from find_in_set [OF mp, of "\<lambda>x. vaContains x a"] c obtain m0 where
    m0: "find (\<lambda>x. vaContains x a) mps = Some m0" "m0 \<in> set mps" "vaContains m0 a" by blast
  let ?fo = "fileOffsetBase m0 + (a - addressBase m0)"
  have f0: "foContains m0 ?fo" using vaContains_translate ok m0 by blast
  have "m0 \<in> set (sort_key fileOffsetBase mps)" using m0(2) by simp
  from find_in_set [OF this, of "\<lambda>x. foContains x ?fo"] f0 obtain m1 where
    m1: "find (\<lambda>x. foContains x ?fo) (sort_key fileOffsetBase mps) = Some m1"
      "m1 \<in> set mps" "foContains m1 ?fo" by auto
  have "m1 = m0" using foContains_unique [OF sf m0(2) m1(2) f0 m1(3)] .
  then have "offsetToAddress mps ?fo = Inr a"
    using m1(1) by (simp add: offsetToAddress_def)
  moreover have "addressToOffset mps a = Inr ?fo"
    using m0(1) by (simp add: addressToOffset_def)
  ultimately show "\<exists>fo. addressToOffset mps a = Inr fo \<and> offsetToAddress mps fo = Inr a"
    by blast
next
  fix mp fo assume mp: "mp \<in> set mps" and c: "foContains mp fo"
  from assms have ok: "\<forall>x\<in>set mps. inBounds x" and sv: "sorted_wrt vaBefore mps"
    by (simp_all add: mappingsOK_def list_all_iff)
  have "mp \<in> set (sort_key fileOffsetBase mps)" using mp by simp
  from find_in_set [OF this, of "\<lambda>x. foContains x fo"] c obtain m0 where
    m0: "find (\<lambda>x. foContains x fo) (sort_key fileOffsetBase mps) = Some m0"
      "m0 \<in> set mps" "foContains m0 fo" by auto
  let ?a = "addressBase m0 + (fo - fileOffsetBase m0)"
  have v0: "vaContains m0 ?a" using foContains_translate ok m0 by blast
  from find_in_set [OF m0(2), of "\<lambda>x. vaContains x ?a"] v0 obtain m1 where
    m1: "find (\<lambda>x. vaContains x ?a) mps = Some m1" "m1 \<in> set mps" "vaContains m1 ?a" by blast
  have "m1 = m0" using vaContains_unique [OF sv m0(2) m1(2) v0 m1(3)] .
  then have "addressToOffset mps ?a = Inr fo"
    using m1(1) by (simp add: addressToOffset_def)
  moreover have "offsetToAddress mps fo = Inr ?a"
    using m0(1) by (simp add: offsetToAddress_def)
  ultimately show "\<exists>a. offsetToAddress mps fo = Inr a \<and> addressToOffset mps a = Inr fo"
    by blast
qed

theorem translate_round_trip_witness:
  "mappingsOK sample_mappings \<and>
   addressToOffset sample_mappings 0x1D7B18000 = Inr 0x53B18000 \<and>
   offsetToAddress sample_mappings 0x53B18000 = Inr 0x1D7B18000"
proof -
  have ok: "mappingsOK sample_mappings"
    by (simp add: sample_mappings_def mappingsOK_def inBounds_def vaBefore_def foApart_def)
  have mem: "\<lparr>addressBase = 0x1D7B18000, fileOffsetBase = 0x53B18000, mappingSize = 0x518C000\<rparr>
       \<in> set sample_mappings"
    by (simp add: sample_mappings_def)
  have c: "vaContains
      \<lparr>addressBase = 0x1D7B18000, fileOffsetBase = 0x53B18000, mappingSize = 0x518C000\<rparr>
      0x1D7B18000"
    by (simp add: vaContains_def)
  from translate_round_trip [OF ok] mem c
  have "\<exists>fo. addressToOffset sample_mappings 0x1D7B18000 = Inr fo \<and>
      offsetToAddress sample_mappings fo = Inr 0x1D7B18000"
    by blast
  moreover have "addressToOffset sample_mappings 0x1D7B18000 = Inr 0x53B18000"
    by (simp add: sample_mappings_def addressToOffset_def vaContains_def)
  ultimately show ?thesis using ok by auto
qed

end
